theory Spec2Isabelle
  imports Main "HOL-Library.AList" "HOL-Library.Multiset"
begin

section \<open>JavaScript values the component handles\<close>

text \<open>
  A field read from a ledger document, or the argument of the reCAPTCHA callback, can
  be any JavaScript value. App.jsx observes two things of such a value: whether it is
  truthy (\<open>if (option)\<close>, \<open>if (value)\<close>) and, for a truthy option, the property key
  it converts to (\<open>stats[option]\<close>). The falsy values are listed one by one
  (\<open>Zero\<close> is 0 and -0, \<open>Str []\<close> the empty string); a string is its own key;
  \<open>Other k\<close> is any other value (a non-zero number, a timestamp, a reference, an
  array, a map), which is truthy and converts to the key \<open>k\<close>.
\<close>

datatype jsval = Undefined | Null | Boolean bool | Zero | NotANumber | Str string | Other string

fun truthy :: "jsval \<Rightarrow> bool" where
  "truthy Undefined = False"
| "truthy Null = False"
| "truthy (Boolean b) = b"
| "truthy Zero = False"
| "truthy NotANumber = False"
| "truthy (Str s) = (s \<noteq> [])"
| "truthy (Other k) = True"

fun propertyKey :: "jsval \<Rightarrow> string" where
  "propertyKey Undefined = ''undefined''"
| "propertyKey Null = ''null''"
| "propertyKey (Boolean b) = (if b then ''true'' else ''false'')"
| "propertyKey Zero = ''0''"
| "propertyKey NotANumber = ''NaN''"
| "propertyKey (Str s) = s"
| "propertyKey (Other k) = k"

text \<open>
  The counters of the tally are JavaScript numbers. \<open>Number(f)\<close> of an inherited
  function is \<open>NaN\<close>, and \<open>NaN + 1\<close> is \<open>NaN\<close>, so the value \<open>NaN\<close> is kept
  apart from the natural numbers (a counter never reaches 2^53, where a double stops
  counting).
\<close>

datatype jsnum = Num nat | NaN

instantiation jsnum :: comm_monoid_add
begin

definition zero_jsnum :: jsnum where
  "zero_jsnum = Num 0"

fun plus_jsnum :: "jsnum \<Rightarrow> jsnum \<Rightarrow> jsnum" where
  "plus_jsnum (Num a) (Num b) = Num (a + b)"
| "plus_jsnum _ _ = NaN"

instance
proof
  fix x y z :: jsnum
  show "x + y = y + x"
    by (cases x; cases y; simp)
  show "0 + x = x"
    unfolding zero_jsnum_def by (cases x; simp)
  show "x + y + z = x + (y + z)"
    by (cases x; cases y; cases z; simp)
qed

end

text \<open>\<open>x || 0\<close> for a counter \<open>x\<close>: both \<open>0\<close> and \<open>NaN\<close> are falsy.\<close>

fun orZero :: "jsnum \<Rightarrow> nat" where
  "orZero (Num n) = n"
| "orZero NaN = 0"

section \<open>The ledger: the Firestore collection \<open>votes\<close>\<close>

text \<open>
  One document per vote, with the fields \<open>submitVote\<close> writes (App.jsx 154-159). The
  collection enforces no schema, and \<open>fetchVoteStats\<close> guards against a falsy
  \<open>option\<close>, so that field is any \<open>jsval\<close>; \<open>IP\<close>, \<open>voteID\<close> and
  \<open>timestamp\<close> are strings.
\<close>

record vote =
  option :: jsval
  IP :: string
  voteID :: string
  timestamp :: string

text \<open>\<open>getDocs(query(votesRef, where('voteID', '==', x)))\<close> and the same on \<open>IP\<close>.\<close>

definition whereVoteID :: "string \<Rightarrow> vote list \<Rightarrow> vote list" where
  "whereVoteID x docs = filter (\<lambda>d. voteID d = x) docs"

definition whereIP :: "string \<Rightarrow> vote list \<Rightarrow> vote list" where
  "whereIP x docs = filter (\<lambda>d. IP d = x) docs"

text \<open>
  The duplicate test of \<open>checkVoteStatus\<close> (App.jsx 77):
  \<open>!voteIdQuery.empty || !ipQuery.empty\<close>.
\<close>

definition hasVoteFor :: "vote list \<Rightarrow> string \<Rightarrow> string \<Rightarrow> bool" where
  "hasVoteFor docs identity address =
     (whereVoteID identity docs \<noteq> [] \<or> whereIP address docs \<noteq> [])"

section \<open>The tally: \<open>fetchVoteStats\<close> and \<open>totalVotes\<close>\<close>

text \<open>
  \<open>stats\<close> is a plain object: its own properties are an association list in insertion
  order, and a read of a key that is not an own property falls through to
  \<open>Object.prototype\<close>, whose properties are functions, except the accessor
  \<open>__proto__\<close>, which reads as the prototype object and whose setter ignores a value
  that is not an object. The keys are those of ECMAScript with its Annex B.
\<close>

definition objectPrototypeKeys :: "string list" where
  "objectPrototypeKeys =
     [''constructor'', ''hasOwnProperty'', ''isPrototypeOf'', ''propertyIsEnumerable'',
      ''toLocaleString'', ''toString'', ''valueOf'', ''__defineGetter__'',
      ''__defineSetter__'', ''__lookupGetter__'', ''__lookupSetter__'', ''__proto__'']"

text \<open>
  \<open>stats[k] = Number(stats[k] || 0) + 1\<close> (App.jsx 99) for the key \<open>k\<close> of the option.
  An own counter is incremented (from 0 when it is \<open>NaN\<close>); a key that is neither
  own nor inherited reads \<open>undefined\<close> and becomes 1; an inherited function gives
  \<open>NaN\<close>; the assignment to \<open>__proto__\<close> changes nothing.
\<close>

definition increment :: "string \<Rightarrow> (string \<times> jsnum) list \<Rightarrow> (string \<times> jsnum) list" where
  "increment k stats =
     (case map_of stats k of
        Some n \<Rightarrow> AList.update k (Num (orZero n + 1)) stats
      | None \<Rightarrow>
          if k \<notin> set objectPrototypeKeys then AList.update k (Num 1) stats
          else if k = ''__proto__'' then stats
          else AList.update k NaN stats)"

text \<open>The callback of \<open>querySnapshot.forEach\<close> (App.jsx 97-100).\<close>

definition countVote :: "vote \<Rightarrow> (string \<times> jsnum) list \<Rightarrow> (string \<times> jsnum) list" where
  "countVote d stats =
     (if truthy (option d) then increment (propertyKey (option d)) stats else stats)"

definition initialStats :: "(string \<times> jsnum) list" where
  "initialStats = [(''A'', Num 0), (''B'', Num 0), (''C'', Num 0)]"

text \<open>The object \<open>fetchVoteStats\<close> hands to \<open>setVoteStats\<close> (App.jsx 96-101).\<close>

definition computeStats :: "vote list \<Rightarrow> (string \<times> jsnum) list" where
  "computeStats docs = fold countVote docs initialStats"

text \<open>
  \<open>Object.values(voteStats).reduce((a, b) => Number(a) + Number(b), 0)\<close> (App.jsx 202).
  \<open>Object.values\<close> lists keys that look like array indices first; the sum does not
  depend on the order.
\<close>

definition totalVotes :: "(string \<times> jsnum) list \<Rightarrow> jsnum" where
  "totalVotes stats = fold (\<lambda>b a. a + b) (map snd stats) 0"

section \<open>The component's state and its collaborators\<close>

text \<open>
  The six \<open>useState\<close> cells of \<open>App\<close> (App.jsx 13-18), the \<open>localStorage\<close> key
  \<open>_voteId\<close> (\<open>None\<close>: no item), the Firestore collection, the promises the
  component awaits that have not settled, and the toasts shown so far.
\<close>

datatype toast = AlreadyVoted | VerificationRequired | VoteRecorded | SubmissionError

text \<open>
  An async function runs up to its first \<open>await\<close> when it is called, and its
  continuation runs when the awaited promise settles. A \<open>call\<close> is an awaited
  promise together with what its continuation holds in local variables:
  \<^item> \<open>StatusQueries voteId ip\<close>: the \<open>Promise.all\<close> of \<open>checkVoteStatus\<close>, with
    the two query arguments as they were when the queries were built (App.jsx 72-75);
  \<^item> \<open>StatsQuery awaited\<close>: \<open>getDocs(votesRef)\<close> of \<open>fetchVoteStats\<close>;
    \<open>awaited\<close> when \<open>submitVote\<close> awaits it (App.jsx 166);
  \<^item> \<open>IPLookup\<close>: \<open>fetch\<close> and \<open>response.json()\<close> of \<open>fetchIP\<close>;
  \<^item> \<open>IPQuery ip\<close>: \<open>getDocs(ipQuery)\<close> of \<open>checkVoteByIP\<close>;
  \<^item> \<open>AddDoc d\<close>: \<open>addDoc\<close> of \<open>submitVote\<close>.
\<close>

datatype call =
    StatusQueries string string
  | StatsQuery bool
  | IPLookup
  | IPQuery string
  | AddDoc vote

text \<open>
  How a promise settles. The string of \<open>Fulfilled\<close> is the field \<open>ip\<close> of the
  address lookup's JSON body; only \<open>fetchIP\<close> reads it. A ledger query that is
  fulfilled reads the collection as it is when the query settles.
\<close>

datatype reply = Rejected | Fulfilled string

record world =
  hasVoted :: bool
  voteStats :: "(string \<times> jsnum) list"
  loading :: bool
  userIP :: string
  captchaVerified :: bool
  showCaptcha :: bool
  localStorage :: "string option"
  votes :: "vote list"
  inflight :: "call list"
  toasts :: "toast list"

text \<open>The first render, for a given stored token and ledger.\<close>

definition initial :: "string option \<Rightarrow> vote list \<Rightarrow> world" where
  "initial stored docs =
     \<lparr>hasVoted = False, voteStats = initialStats, loading = True, userIP = [],
      captchaVerified = False, showCaptcha = False, localStorage = stored,
      votes = docs, inflight = [], toasts = []\<rparr>"

definition await :: "call \<Rightarrow> world \<Rightarrow> world" where
  "await c w = w\<lparr>inflight := inflight w @ [c]\<rparr>"

definition toast :: "toast \<Rightarrow> world \<Rightarrow> world" where
  "toast t w = w\<lparr>toasts := toasts w @ [t]\<rparr>"

section \<open>The operations of \<open>App\<close>\<close>

text \<open>
  \<open>generateVoteId\<close> (App.jsx 58-65). \<open>uuid\<close> is what \<open>crypto.randomUUID()\<close>
  returns if it is called. A stored empty string is falsy, as no item is.
\<close>

definition generateVoteId :: "string \<Rightarrow> world \<Rightarrow> string \<times> world" where
  "generateVoteId uuid w =
     (case localStorage w of
        Some storedVoteId \<Rightarrow>
          if storedVoteId \<noteq> [] then (storedVoteId, w)
          else (uuid, w\<lparr>localStorage := Some uuid\<rparr>)
      | None \<Rightarrow> (uuid, w\<lparr>localStorage := Some uuid\<rparr>))"

text \<open>
  \<open>checkVoteStatus\<close> (App.jsx 67-90), up to its \<open>await\<close>: \<open>userIP\<close> is read when
  the query is built.
\<close>

definition checkVoteStatus :: "string \<Rightarrow> world \<Rightarrow> world" where
  "checkVoteStatus uuid w =
     (case generateVoteId uuid w of
        (voteId, w') \<Rightarrow> await (StatusQueries voteId (userIP w')) w')"

text \<open>Its continuation: the \<open>try\<close> body after the \<open>await\<close>, \<open>catch\<close>, \<open>finally\<close>.\<close>

definition checkVoteStatus_settled :: "string \<Rightarrow> string \<Rightarrow> reply \<Rightarrow> world \<Rightarrow> world" where
  "checkVoteStatus_settled voteId ip r w =
     (case r of
        Rejected \<Rightarrow> w
      | Fulfilled _ \<Rightarrow>
          if hasVoteFor (votes w) voteId ip then
            (case whereVoteID voteId (votes w) of
               _ # _ \<Rightarrow> w\<lparr>hasVoted := True, localStorage := Some voteId\<rparr>
             | [] \<Rightarrow>
                 (case whereIP ip (votes w) of
                    d # _ \<Rightarrow> w\<lparr>hasVoted := True, localStorage := Some (voteID d)\<rparr>
                  | [] \<Rightarrow> w\<lparr>hasVoted := True\<rparr>))
          else w)
     \<lparr>loading := False\<rparr>"

text \<open>\<open>fetchVoteStats\<close> (App.jsx 92-105), and its continuation.\<close>

definition fetchVoteStats :: "bool \<Rightarrow> world \<Rightarrow> world" where
  "fetchVoteStats awaited w = await (StatsQuery awaited) w"

definition fetchVoteStats_settled :: "reply \<Rightarrow> world \<Rightarrow> world" where
  "fetchVoteStats_settled r w =
     (case r of
        Rejected \<Rightarrow> w
      | Fulfilled _ \<Rightarrow> w\<lparr>voteStats := computeStats (votes w)\<rparr>)"

text \<open>\<open>checkVoteByIP\<close> (App.jsx 41-56), and its continuation.\<close>

definition checkVoteByIP :: "string \<Rightarrow> world \<Rightarrow> world" where
  "checkVoteByIP ip w = (if ip = [] then w else await (IPQuery ip) w)"

definition checkVoteByIP_settled :: "string \<Rightarrow> reply \<Rightarrow> world \<Rightarrow> world" where
  "checkVoteByIP_settled ip r w =
     (case r of
        Rejected \<Rightarrow> w
      | Fulfilled _ \<Rightarrow>
          (case whereIP ip (votes w) of
             [] \<Rightarrow> w
           | d # _ \<Rightarrow> w\<lparr>hasVoted := True, localStorage := Some (voteID d)\<rparr>))"

text \<open>\<open>fetchIP\<close> (App.jsx 28-39), and its continuation.\<close>

definition fetchIP :: "world \<Rightarrow> world" where
  "fetchIP w = await IPLookup w"

definition fetchIP_settled :: "reply \<Rightarrow> world \<Rightarrow> world" where
  "fetchIP_settled r w =
     (case r of
        Rejected \<Rightarrow> w
      | Fulfilled ip \<Rightarrow>
          (if ip \<noteq> [] then checkVoteByIP ip (w\<lparr>userIP := ip\<rparr>) else w\<lparr>userIP := ip\<rparr>))"

text \<open>
  The effect of the first render (App.jsx 21-26): the three functions are called in
  this order, each running up to its first \<open>await\<close>.
\<close>

definition mount :: "string \<Rightarrow> world \<Rightarrow> world" where
  "mount uuid w = fetchIP (fetchVoteStats False (checkVoteStatus uuid w))"

text \<open>\<open>onCaptchaChange\<close> (App.jsx 107-112).\<close>

definition onCaptchaChange :: "jsval \<Rightarrow> world \<Rightarrow> world" where
  "onCaptchaChange v w =
     (if truthy v then w\<lparr>captchaVerified := True, showCaptcha := False\<rparr> else w)"

text \<open>\<open>handleVoteClick\<close> (App.jsx 114-126).\<close>

definition handleVoteClick :: "world \<Rightarrow> world" where
  "handleVoteClick w =
     (if hasVoted w then toast AlreadyVoted w else w\<lparr>showCaptcha := True\<rparr>)"

text \<open>
  \<open>submitVote\<close> (App.jsx 128-190), up to \<open>await addDoc\<close>. \<open>now\<close> is
  \<open>new Date().toISOString()\<close>.
\<close>

definition submitVote :: "string \<Rightarrow> string \<Rightarrow> string \<Rightarrow> world \<Rightarrow> world" where
  "submitVote opt uuid now w =
     (if hasVoted w then toast AlreadyVoted w
      else if \<not> captchaVerified w then (toast VerificationRequired w)\<lparr>showCaptcha := True\<rparr>
      else
        (case generateVoteId uuid w of
           (voteId, w') \<Rightarrow>
             await (AddDoc \<lparr>option = Str opt, IP = userIP w', voteID = voteId,
                              timestamp = now\<rparr>) w'))"

text \<open>
  Its continuation. A fulfilled \<open>addDoc\<close> has added the document; then
  \<open>setHasVoted(true)\<close> and \<open>fetchVoteStats()\<close> is awaited. A rejected one goes to
  \<open>catch\<close>, which changes no state cell.
\<close>

definition submitVote_settled :: "vote \<Rightarrow> reply \<Rightarrow> world \<Rightarrow> world" where
  "submitVote_settled d r w =
     (case r of
        Rejected \<Rightarrow> toast SubmissionError w
      | Fulfilled _ \<Rightarrow> fetchVoteStats True (w\<lparr>votes := votes w @ [d], hasVoted := True\<rparr>))"

text \<open>What runs when a call settles.\<close>

fun resume :: "call \<Rightarrow> reply \<Rightarrow> world \<Rightarrow> world" where
  "resume (StatusQueries voteId ip) r w = checkVoteStatus_settled voteId ip r w"
| "resume (StatsQuery awaited) r w =
     (if awaited then toast VoteRecorded (fetchVoteStats_settled r w)
      else fetchVoteStats_settled r w)"
| "resume IPLookup r w = fetchIP_settled r w"
| "resume (IPQuery ip) r w = checkVoteByIP_settled ip r w"
| "resume (AddDoc d) r w = submitVote_settled d r w"

section \<open>Executions\<close>

text \<open>
  One thread of control: an execution is a sequence of events, each run to completion.
  \<open>Mount\<close> is the effect of the first render, \<open>OnCaptchaChange\<close> the callback of
  the challenge, \<open>HandleVoteClick\<close> and \<open>SubmitVote\<close> a call of the function of
  that name, \<open>Settle i r\<close> settles the \<open>i\<close>-th outstanding call, and
  \<open>OtherClient d\<close> is an append to the shared ledger by another client (another
  tab or visitor). A function called by an event belongs to the latest render and
  reads the current state cells; the continuations read no state cell.

  The rendered page calls \<open>handleVoteClick\<close> from its buttons (only while
  \<open>hasVoted\<close> is false) and \<open>onCaptchaChange\<close> from the challenge; nothing in
  App.jsx calls \<open>submitVote\<close>, so what is proved of submission is proved of that
  function.
\<close>

datatype event =
    Mount string
  | OnCaptchaChange jsval
  | HandleVoteClick
  | SubmitVote string string string
  | Settle nat reply
  | OtherClient vote

fun step :: "event \<Rightarrow> world \<Rightarrow> world" where
  "step (Mount uuid) w = mount uuid w"
| "step (OnCaptchaChange v) w = onCaptchaChange v w"
| "step HandleVoteClick w = handleVoteClick w"
| "step (SubmitVote opt uuid now) w = submitVote opt uuid now w"
| "step (Settle i r) w =
     (if i < length (inflight w)
      then resume (inflight w ! i) r (w\<lparr>inflight := take i (inflight w) @ drop (Suc i) (inflight w)\<rparr>)
      else w)"
| "step (OtherClient d) w = w\<lparr>votes := votes w @ [d]\<rparr>"

definition run :: "event list \<Rightarrow> world \<Rightarrow> world" where
  "run es w = fold step es w"

section \<open>Notions used to state and prove the properties\<close>

text \<open>
  The mapping an object denotes is \<open>map_of\<close> of its own properties. The next two
  functions are \<open>increment\<close> and \<open>countVote\<close> on that mapping; they serve the proofs
  only (see \<open>map_of_increment\<close>, \<open>map_of_countVote\<close>).
\<close>

definition incrementMap :: "string \<Rightarrow> (string \<rightharpoonup> jsnum) \<Rightarrow> (string \<rightharpoonup> jsnum)" where
  "incrementMap k m =
     (case m k of
        Some n \<Rightarrow> m(k \<mapsto> Num (orZero n + 1))
      | None \<Rightarrow>
          if k \<notin> set objectPrototypeKeys then m(k \<mapsto> Num 1)
          else if k = ''__proto__'' then m
          else m(k \<mapsto> NaN))"

definition countVoteMap :: "vote \<Rightarrow> (string \<rightharpoonup> jsnum) \<Rightarrow> (string \<rightharpoonup> jsnum)" where
  "countVoteMap d m =
     (if truthy (option d) then incrementMap (propertyKey (option d)) m else m)"





definition cast :: "jsval \<Rightarrow> vote" where
  "cast v = \<lparr>option = v, IP = ''203.0.113.7'', voteID = ''earlier'',
              timestamp = ''2024-12-08T10:00:00.000Z''\<rparr>"

text \<open>The calls that are appends, and the calls of the two duplicate checks.\<close>

fun isAddDoc :: "call \<Rightarrow> bool" where
  "isAddDoc (AddDoc d) = True"
| "isAddDoc _ = False"



text \<open>
  Tokens in an execution: a pending call or an event that carries a token carries a
  non-empty one (a UUID, or the \<open>voteID\<close> of a document written by this code),
  and a world in which the stored token, the ledger and the pending calls hold
  non-empty tokens only.
\<close>

fun namesToken :: "call \<Rightarrow> bool" where
  "namesToken (StatusQueries voteId ip) = (voteId \<noteq> [])"
| "namesToken (AddDoc d) = (voteID d \<noteq> [])"
| "namesToken _ = True"

fun bringsToken :: "event \<Rightarrow> bool" where
  "bringsToken (Mount uuid) = (uuid \<noteq> [])"
| "bringsToken (SubmitVote opt uuid now) = (uuid \<noteq> [])"
| "bringsToken (OtherClient d) = (voteID d \<noteq> [])"
| "bringsToken _ = True"

definition tokensNonEmpty :: "world \<Rightarrow> bool" where
  "tokensNonEmpty w =
     (localStorage w \<noteq> Some [] \<and> list_all (\<lambda>d. voteID d \<noteq> []) (votes w) \<and>
      list_all namesToken (inflight w))"

text \<open>
  Worlds and documents the properties are evaluated at. \<open>verifiedWorld\<close>: a visitor
  with the stored token \<open>mine\<close> opens the poll on an empty ledger, the initial check
  settles and the challenge is passed. \<open>submittingWorld\<close>: the same visitor has then
  called \<open>submitVote\<close> and the append is outstanding. \<open>returningWorld\<close>: a visitor
  with the stored token \<open>mine\<close> opens the poll when the ledger holds a vote cast from
  the visitor's address under another token. \<open>overtakenWorld\<close>: in
  \<open>returningWorld\<close> the initial check settles, the challenge is passed and
  \<open>submitVote\<close> is called; while its append is outstanding the address lookup and
  then the query of \<open>checkVoteByIP\<close> settle.
\<close>

definition verifiedWorld :: world where
  "verifiedWorld =
     run [Mount ''u1'', Settle 0 (Fulfilled []), OnCaptchaChange (Str ''token'')]
       (initial (Some ''mine'') [])"

definition otherTab :: vote where
  "otherTab = \<lparr>option = Str ''A'', IP = ''198.51.100.4'', voteID = ''mine'',
                 timestamp = ''2024-12-08T09:00:00.000Z''\<rparr>"

definition ballot :: vote where
  "ballot = \<lparr>option = Str ''B'', IP = [], voteID = ''mine'',
               timestamp = ''2024-12-08T09:00:01.000Z''\<rparr>"

definition submittingWorld :: world where
  "submittingWorld = step (SubmitVote ''B'' ''u2'' ''2024-12-08T09:00:01.000Z'') verifiedWorld"

definition returningWorld :: world where
  "returningWorld = run [Mount ''u1''] (initial (Some ''mine'') [cast (Str ''A'')])"

definition overtakenWorld :: world where
  "overtakenWorld =
     run [Settle 0 (Fulfilled []), OnCaptchaChange (Str ''token''),
          SubmitVote ''B'' ''u2'' ''2024-12-08T09:00:01.000Z'',
          Settle 1 (Fulfilled ''203.0.113.7''), Settle 2 (Fulfilled [])] returningWorld"

section \<open>The tally\<close>

lemma totalVotes_sum_list: "totalVotes stats = sum_list (map snd stats)"
proof -
  have "(\<lambda>(b::jsnum) a. a + b) = plus"
    by (intro ext) (simp add: add.commute)
  then show ?thesis
    by (simp add: totalVotes_def fold_plus_sum_list_rev)
qed

lemma map_of_increment: "map_of (increment k stats) = incrementMap k (map_of stats)"
  by (simp add: increment_def incrementMap_def update_conv' split: option.splits)

lemma map_of_countVote: "map_of (countVote d stats) = countVoteMap d (map_of stats)"
  by (simp add: countVote_def countVoteMap_def map_of_increment)

lemma distinct_increment: "distinct (map fst stats) \<Longrightarrow> distinct (map fst (increment k stats))"
  by (simp add: increment_def distinct_update split: option.splits)

lemma distinct_countVote: "distinct (map fst stats) \<Longrightarrow> distinct (map fst (countVote d stats))"
  by (simp add: countVote_def distinct_increment)

lemma distinct_fold_countVote:
  "distinct (map fst stats) \<Longrightarrow> distinct (map fst (fold countVote docs stats))"
  by (induction docs arbitrary: stats) (simp_all add: distinct_countVote)

lemma map_of_fold_countVote:
  "map_of (fold countVote docs stats) = fold countVoteMap docs (map_of stats)"
  by (induction docs arbitrary: stats) (simp_all add: map_of_countVote)

lemma incrementMap_other: "j \<noteq> k \<Longrightarrow> incrementMap k m j = m j"
  by (cases "m k") (simp_all add: incrementMap_def)

lemma incrementMap_same:
  "incrementMap k m k =
     (case m k of
        Some n \<Rightarrow> Some (Num (orZero n + 1))
      | None \<Rightarrow>
          if k \<notin> set objectPrototypeKeys then Some (Num 1)
          else if k = ''__proto__'' then None
          else Some NaN)"
  by (simp add: incrementMap_def split: option.splits)

lemma incrementMap_commute:
  "incrementMap j (incrementMap k m) = incrementMap k (incrementMap j m)"
proof (cases "j = k")
  case True
  then show ?thesis by simp
next
  case False
  show ?thesis
  proof
    fix x
    consider "x = j" | "x = k" | "x \<noteq> j" "x \<noteq> k" by blast
    then show "incrementMap j (incrementMap k m) x = incrementMap k (incrementMap j m) x"
    proof cases
      case 1
      with False have "x \<noteq> k" by simp
      with 1 show ?thesis
        by (simp add: incrementMap_same incrementMap_other)
    next
      case 2
      with False have "x \<noteq> j" by simp
      with 2 show ?thesis
        by (simp add: incrementMap_same incrementMap_other)
    next
      case 3
      then show ?thesis
        by (simp add: incrementMap_other)
    qed
  qed
qed

lemma countVoteMap_commute:
  "countVoteMap d (countVoteMap e m) = countVoteMap e (countVoteMap d m)"
  by (simp add: countVoteMap_def incrementMap_commute)

lemma fold_countVoteMap_mset:
  assumes "mset docs = mset docs'"
  shows "fold countVoteMap docs m = fold countVoteMap docs' m"
proof -
  have "fold countVoteMap docs = fold countVoteMap docs'"
    by (rule fold_multiset_equiv) (auto simp: fun_eq_iff countVoteMap_commute assms)
  then show ?thesis by simp
qed

lemma distinct_computeStats: "distinct (map fst (computeStats docs))"
  by (simp add: computeStats_def distinct_fold_countVote initialStats_def)

lemma sum_list_values_cong:
  fixes xs ys :: "(string \<times> jsnum) list"
  assumes "distinct (map fst xs)" "distinct (map fst ys)" "map_of xs = map_of ys"
  shows "sum_list (map snd xs) = sum_list (map snd ys)"
proof -
  have "set xs = set ys"
    using assms by (simp add: map_of_inject_set)
  moreover have "distinct xs" "distinct ys"
    using assms(1,2) by (auto dest: distinct_map [THEN iffD1])
  ultimately have "mset xs = mset ys"
    by (simp add: set_eq_iff_mset_eq_distinct)
  then have "mset (map snd xs) = mset (map snd ys)"
    by simp
  then show ?thesis
    by (metis sum_mset_sum_list)
qed



















text \<open>
  Claim C8. \<open>computeStats\<close> is order-independent: two ledger sequences that are
  permutations of each other give the same mapping from options to counters and the
  same grand total. This holds for every option, also for the keys an object inherits.
\<close>

theorem computeStats_order_independent:
  assumes "mset docs = mset docs'"
  shows "map_of (computeStats docs) = map_of (computeStats docs') \<and>
         totalVotes (computeStats docs) = totalVotes (computeStats docs')"
proof -
  have "map_of (computeStats docs) = map_of (computeStats docs')"
    by (simp add: computeStats_def map_of_fold_countVote fold_countVoteMap_mset [OF assms])
  then show ?thesis
    by (simp add: totalVotes_sum_list sum_list_values_cong distinct_computeStats)
qed

text \<open>The theorem at three entries and a rotation of them.\<close>

theorem computeStats_order_independent_witness:
  "mset [cast (Str ''A''), cast (Str ''toString''), cast (Str ''D'')] =
     mset [cast (Str ''D''), cast (Str ''A''), cast (Str ''toString'')] \<and>
   map_of (computeStats [cast (Str ''A''), cast (Str ''toString''), cast (Str ''D'')]) =
     map_of (computeStats [cast (Str ''D''), cast (Str ''A''), cast (Str ''toString'')]) \<and>
   totalVotes (computeStats [cast (Str ''A''), cast (Str ''toString''), cast (Str ''D'')]) =
     totalVotes (computeStats [cast (Str ''D''), cast (Str ''A''), cast (Str ''toString'')])"
proof -
  have perm: "mset [cast (Str ''A''), cast (Str ''toString''), cast (Str ''D'')] =
     mset [cast (Str ''D''), cast (Str ''A''), cast (Str ''toString'')]"
    by simp
  from perm computeStats_order_independent [OF perm] show ?thesis
    by simp
qed

section \<open>What each operation changes\<close>

lemmas settled_defs =
  checkVoteStatus_settled_def fetchVoteStats_settled_def checkVoteByIP_settled_def
  fetchIP_settled_def submitVote_settled_def

lemmas called_defs =
  mount_def checkVoteStatus_def fetchVoteStats_def fetchIP_def checkVoteByIP_def
  generateVoteId_def onCaptchaChange_def handleVoteClick_def submitVote_def
  await_def toast_def

lemma captchaVerified_resume: "captchaVerified (resume c r w) = captchaVerified w"
  by (cases c; cases r)
    (simp_all add: settled_defs called_defs split: list.splits)

lemma showCaptcha_resume: "showCaptcha (resume c r w) = showCaptcha w"
  by (cases c; cases r)
    (simp_all add: settled_defs called_defs split: list.splits)

lemma hasVoted_resume: "hasVoted w \<Longrightarrow> hasVoted (resume c r w)"
  by (cases c; cases r)
    (simp_all add: settled_defs called_defs split: list.splits)

lemma votes_resume: "\<exists>ds. votes (resume c r w) = votes w @ ds"
  by (cases c; cases r)
    (simp_all add: settled_defs called_defs split: list.splits)

lemma captchaVerified_step:
  "captchaVerified (step e w) \<longleftrightarrow> captchaVerified w \<or> (\<exists>v. e = OnCaptchaChange v \<and> truthy v)"
  by (cases e) (auto simp: called_defs captchaVerified_resume split: option.splits)

lemma hasVoted_step: "hasVoted w \<Longrightarrow> hasVoted (step e w)"
  by (cases e) (auto simp: called_defs hasVoted_resume split: option.splits)

lemma votes_step: "\<exists>ds. votes (step e w) = votes w @ ds"
proof (cases e)
  case (Settle i r)
  then show ?thesis
    using votes_resume [of "inflight w ! i" r
        "w\<lparr>inflight := take i (inflight w) @ drop (Suc i) (inflight w)\<rparr>"]
    by simp
qed (simp_all add: called_defs split: option.splits)

lemma captchaVerified_run: "captchaVerified w \<Longrightarrow> captchaVerified (run es w)"
  unfolding run_def by (induction es arbitrary: w) (simp_all add: captchaVerified_step)

lemma hasVoted_run: "hasVoted w \<Longrightarrow> hasVoted (run es w)"
  unfolding run_def by (induction es arbitrary: w) (simp_all add: hasVoted_step)

lemma votes_run: "\<exists>ds. votes (run es w) = votes w @ ds"
  unfolding run_def
proof (induction es arbitrary: w)
  case Nil
  then show ?case by simp
next
  case (Cons e es)
  obtain ds where "votes (step e w) = votes w @ ds"
    using votes_step by blast
  moreover obtain ds' where "votes (fold step es (step e w)) = votes (step e w) @ ds'"
    using Cons.IH by blast
  ultimately show ?case by simp
qed

lemma hasVoteFor_append: "hasVoteFor docs t a \<Longrightarrow> hasVoteFor (docs @ ds) t a"
  by (auto simp: hasVoteFor_def whereVoteID_def whereIP_def)

lemma hasVoteFor_own: "hasVoteFor (docs @ [d]) (voteID d) a"
  by (simp add: hasVoteFor_def whereVoteID_def)

lemma generateVoteId_writes_token_only:
  "snd (generateVoteId uuid w) = w\<lparr>localStorage := Some (fst (generateVoteId uuid w))\<rparr>"
  by (simp add: generateVoteId_def split: option.splits)




lemma submittingWorld_call:
  "2 < length (inflight submittingWorld) \<and> inflight submittingWorld ! 2 = AddDoc ballot"
  by code_simp

lemma overtakenWorld_call:
  "1 < length (inflight overtakenWorld) \<and> inflight overtakenWorld ! 1 = AddDoc ballot \<and>
   hasVoted overtakenWorld"
  by code_simp

lemma submittingWorld_cells:
  "\<not> hasVoted submittingWorld \<and> captchaVerified submittingWorld \<and>
   votes submittingWorld = [] \<and> userIP submittingWorld = [] \<and>
   \<not> showCaptcha submittingWorld \<and> localStorage submittingWorld = Some ''mine''"
  by code_simp

section \<open>The identity token\<close>

text \<open>
  In an execution that starts without an empty stored token, on a ledger whose
  documents have tokens, and in which every generated UUID is non-empty, the stored
  token is never the empty string: whenever a token is persisted, \<open>generateVoteId\<close>
  finds it.
\<close>

lemma whereIP_tokens:
  assumes "list_all (\<lambda>d. voteID d \<noteq> []) docs" and "whereIP ip docs = d # ds"
  shows "voteID d \<noteq> []"
proof -
  have "d \<in> set (whereIP ip docs)"
    by (simp add: assms(2))
  then have "d \<in> set docs"
    by (simp add: whereIP_def)
  with assms(1) show ?thesis
    by (simp add: list.pred_set)
qed

lemma tokensNonEmpty_generateVoteId:
  assumes "tokensNonEmpty w" and "uuid \<noteq> []"
  shows "fst (generateVoteId uuid w) \<noteq> [] \<and> tokensNonEmpty (snd (generateVoteId uuid w))"
  using assms by (auto simp: generateVoteId_def tokensNonEmpty_def split: option.splits)

lemma tokensNonEmpty_resume:
  assumes "tokensNonEmpty w" and "namesToken c"
  shows "tokensNonEmpty (resume c r w)"
proof (cases c)
  case (StatusQueries voteId ip)
  with assms show ?thesis
    by (cases r)
      (auto simp: checkVoteStatus_settled_def tokensNonEmpty_def split: list.splits
        dest: whereIP_tokens)
next
  case (StatsQuery awaited)
  with assms show ?thesis
    by (cases r) (auto simp: fetchVoteStats_settled_def toast_def tokensNonEmpty_def)
next
  case IPLookup
  with assms show ?thesis
    by (cases r)
      (auto simp: fetchIP_settled_def checkVoteByIP_def await_def tokensNonEmpty_def)
next
  case (IPQuery ip)
  with assms show ?thesis
    by (cases r)
      (auto simp: checkVoteByIP_settled_def tokensNonEmpty_def split: list.splits
        dest: whereIP_tokens)
next
  case (AddDoc d)
  with assms show ?thesis
    by (cases r)
      (auto simp: submitVote_settled_def fetchVoteStats_def await_def toast_def
        tokensNonEmpty_def)
qed

lemma tokensNonEmpty_step:
  assumes "tokensNonEmpty w" and "bringsToken e"
  shows "tokensNonEmpty (step e w)"
proof (cases e)
  case (Mount uuid)
  with assms tokensNonEmpty_generateVoteId [of w uuid] show ?thesis
    by (auto simp: mount_def checkVoteStatus_def fetchVoteStats_def fetchIP_def await_def
        tokensNonEmpty_def case_prod_beta)
next
  case (OnCaptchaChange v)
  with assms show ?thesis
    by (auto simp: onCaptchaChange_def tokensNonEmpty_def)
next
  case HandleVoteClick
  with assms show ?thesis
    by (auto simp: handleVoteClick_def toast_def tokensNonEmpty_def)
next
  case (SubmitVote opt uuid now)
  with assms tokensNonEmpty_generateVoteId [of w uuid] show ?thesis
    by (auto simp: submitVote_def await_def toast_def tokensNonEmpty_def case_prod_beta)
next
  case (Settle i r)
  show ?thesis
  proof (cases "i < length (inflight w)")
    case False
    with Settle assms show ?thesis by simp
  next
    case True
    let ?w = "w\<lparr>inflight := take i (inflight w) @ drop (Suc i) (inflight w)\<rparr>"
    have "list_all namesToken (inflight w)"
      using assms(1) by (simp add: tokensNonEmpty_def)
    then have all: "\<forall>c \<in> set (inflight w). namesToken c"
      by (simp add: list.pred_set)
    have "namesToken (inflight w ! i)"
      using all True by simp
    moreover have "tokensNonEmpty ?w"
      using assms(1) all
      by (auto simp: tokensNonEmpty_def list.pred_set dest: in_set_takeD in_set_dropD)
    ultimately show ?thesis
      using Settle True by (simp add: tokensNonEmpty_resume)
  qed
next
  case (OtherClient d)
  with assms show ?thesis
    by (auto simp: tokensNonEmpty_def)
qed

lemma tokensNonEmpty_run:
  "tokensNonEmpty w \<Longrightarrow> list_all bringsToken es \<Longrightarrow> tokensNonEmpty (run es w)"
  unfolding run_def by (induction es arbitrary: w) (simp_all add: tokensNonEmpty_step)

lemma stored_token_is_never_empty:
  assumes "stored \<noteq> Some []" and "list_all (\<lambda>d. voteID d \<noteq> []) docs"
    and "list_all bringsToken es"
  shows "localStorage (run es (initial stored docs)) \<noteq> Some []"
proof -
  have "tokensNonEmpty (initial stored docs)"
    using assms(1,2) by (simp add: tokensNonEmpty_def initial_def)
  then have "tokensNonEmpty (run es (initial stored docs))"
    using assms(3) by (rule tokensNonEmpty_run)
  then show ?thesis
    by (simp add: tokensNonEmpty_def)
qed

text \<open>
  Claim C9. \<open>generateVoteId\<close> is idempotent after the first creation: a persisted
  token is returned unchanged, and nothing is written; with no persisted token, the
  first call generates and persists one, and a second call returns that same token.
  (A token is a non-empty string: \<open>crypto.randomUUID()\<close> returns one, and the code
  reads a stored empty string as no token.)
\<close>

theorem generateVoteId_idempotent:
  "(localStorage w = Some t \<and> t \<noteq> [] \<longrightarrow> generateVoteId uuid w = (t, w)) \<and>
   (localStorage w = None \<and> uuid \<noteq> [] \<longrightarrow>
      fst (generateVoteId uuid w) = uuid \<and>
      localStorage (snd (generateVoteId uuid w)) = Some uuid \<and>
      generateVoteId uuid' (snd (generateVoteId uuid w)) = (uuid, snd (generateVoteId uuid w)))"
  by (simp add: generateVoteId_def)

text \<open>The theorem at a world with the stored token \<open>mine\<close>, and at a first visit.\<close>

theorem generateVoteId_idempotent_witness:
  "localStorage verifiedWorld = Some ''mine'' \<and> ''mine'' \<noteq> [] \<and>
   generateVoteId ''u9'' verifiedWorld = (''mine'', verifiedWorld) \<and>
   localStorage (initial None []) = None \<and> ''u1'' \<noteq> [] \<and>
   fst (generateVoteId ''u1'' (initial None [])) = ''u1'' \<and>
   localStorage (snd (generateVoteId ''u1'' (initial None []))) = Some ''u1'' \<and>
   generateVoteId ''u2'' (snd (generateVoteId ''u1'' (initial None []))) =
     (''u1'', snd (generateVoteId ''u1'' (initial None [])))"
proof -
  have stored: "localStorage verifiedWorld = Some ''mine''"
    by code_simp
  have fresh: "localStorage (initial None []) = None"
    by (simp add: initial_def)
  from stored generateVoteId_idempotent [of verifiedWorld "''mine''" "''u9''"]
  have "generateVoteId ''u9'' verifiedWorld = (''mine'', verifiedWorld)"
    by simp
  moreover from fresh generateVoteId_idempotent [of "initial None []" _ "''u1''" "''u2''"]
  have "fst (generateVoteId ''u1'' (initial None [])) = ''u1'' \<and>
   localStorage (snd (generateVoteId ''u1'' (initial None []))) = Some ''u1'' \<and>
   generateVoteId ''u2'' (snd (generateVoteId ''u1'' (initial None []))) =
     (''u1'', snd (generateVoteId ''u1'' (initial None [])))"
    by simp
  ultimately show ?thesis
    using stored fresh by simp
qed




section \<open>Verification\<close>

text \<open>
  Claim C10. The verification flag is monotone: \<open>onCaptchaChange\<close> sets it for a
  non-empty token and changes nothing for an empty or missing one (the challenge's
  expiry), and no event, hence no execution, clears it once it is set.
\<close>

theorem verification_is_never_revoked:
  "(truthy v \<longrightarrow> captchaVerified (onCaptchaChange v w)) \<and>
   (\<not> truthy v \<longrightarrow> onCaptchaChange v w = w) \<and>
   (captchaVerified w \<longrightarrow> captchaVerified (step e w) \<and> captchaVerified (run es w))"
  by (simp add: onCaptchaChange_def captchaVerified_step captchaVerified_run)

text \<open>
  The theorem at a passed challenge, and at an execution from \<open>verifiedWorld\<close> in
  which the challenge expires.
\<close>

theorem verification_is_never_revoked_witness:
  "truthy (Str ''token'') \<and>
   captchaVerified (onCaptchaChange (Str ''token'') (initial None [])) \<and>
   \<not> truthy Undefined \<and>
   onCaptchaChange Undefined verifiedWorld = verifiedWorld \<and>
   captchaVerified verifiedWorld \<and>
   captchaVerified (step (OnCaptchaChange Undefined) verifiedWorld) \<and>
   captchaVerified (run [OnCaptchaChange Undefined, HandleVoteClick, Settle 1 Rejected,
                         OnCaptchaChange (Str [])] verifiedWorld)"
proof -
  have granted: "captchaVerified verifiedWorld"
    by code_simp
  from verification_is_never_revoked [of "Str ''token''" "initial None []"]
  have "captchaVerified (onCaptchaChange (Str ''token'') (initial None []))"
    by simp
  moreover from granted
    verification_is_never_revoked [of Undefined verifiedWorld "OnCaptchaChange Undefined"
      "[OnCaptchaChange Undefined, HandleVoteClick, Settle 1 Rejected, OnCaptchaChange (Str [])]"]
  have "onCaptchaChange Undefined verifiedWorld = verifiedWorld \<and>
    captchaVerified (step (OnCaptchaChange Undefined) verifiedWorld) \<and>
    captchaVerified (run [OnCaptchaChange Undefined, HandleVoteClick, Settle 1 Rejected,
                         OnCaptchaChange (Str [])] verifiedWorld)"
    by simp
  ultimately show ?thesis
    using granted by simp
qed

section \<open>Submission\<close>

text \<open>
  Claim C1, as the code has it. On a vote intent in the Verified state,
  \<open>submitVote\<close> re-validates the recorded-vote flag of the component only: it sends
  no query, so what it does is the same whatever the ledger holds, and with the
  verification flag set it issues the append exactly when the recorded-vote flag is
  unset.
\<close>

theorem submitVote_rechecks_the_local_flag_only:
  "submitVote opt uuid now (w\<lparr>votes := docs\<rparr>) = (submitVote opt uuid now w)\<lparr>votes := docs\<rparr> \<and>
   (captchaVerified w \<longrightarrow>
      inflight (submitVote opt uuid now w) =
        (if hasVoted w then inflight w
         else inflight w @
           [AddDoc \<lparr>option = Str opt, IP = userIP w, voteID = fst (generateVoteId uuid w),
                    timestamp = now\<rparr>]))"
  by (simp add: submitVote_def generateVoteId_def await_def toast_def split: option.splits)

text \<open>
  The theorem at \<open>verifiedWorld\<close> after another tab of the same browser has cast
  a vote under the same token.
\<close>

theorem submitVote_rechecks_the_local_flag_only_witness:
  "captchaVerified (step (OtherClient otherTab) verifiedWorld) \<and>
   \<not> hasVoted (step (OtherClient otherTab) verifiedWorld) \<and>
   votes (step (OtherClient otherTab) verifiedWorld) = [otherTab] \<and>
   inflight (submitVote ''B'' ''u2'' ''2024-12-08T09:00:01.000Z''
       (step (OtherClient otherTab) verifiedWorld)) =
     inflight (step (OtherClient otherTab) verifiedWorld) @ [AddDoc ballot]"
proof -
  have cells: "captchaVerified (step (OtherClient otherTab) verifiedWorld)"
    "\<not> hasVoted (step (OtherClient otherTab) verifiedWorld)"
    "votes (step (OtherClient otherTab) verifiedWorld) = [otherTab]"
    "userIP (step (OtherClient otherTab) verifiedWorld) = []"
    "localStorage (step (OtherClient otherTab) verifiedWorld) = Some ''mine''"
    by code_simp+
  have token: "fst (generateVoteId ''u2'' (step (OtherClient otherTab) verifiedWorld)) = ''mine''"
    by (simp add: generateVoteId_def cells del: step.simps)
  from submitVote_rechecks_the_local_flag_only [where opt = "''B''" and uuid = "''u2''"
      and now = "''2024-12-08T09:00:01.000Z''" and w = "step (OtherClient otherTab) verifiedWorld"]
    cells
  show ?thesis
    by (simp add: token ballot_def del: step.simps)
qed

text \<open>
  Claim C1 as the specification states it fails there: the ledger holds a vote for the
  visitor's token, the recorded-vote flag is still unset, and \<open>submitVote\<close> issues the
  append; when it settles the ledger holds two votes with the token \<open>mine\<close>.
\<close>

theorem append_despite_recorded_vote:
  "\<not> hasVoted (step (OtherClient otherTab) verifiedWorld) \<and>
   captchaVerified (step (OtherClient otherTab) verifiedWorld) \<and>
   hasVoteFor (votes (step (OtherClient otherTab) verifiedWorld)) ''mine''
     (userIP (step (OtherClient otherTab) verifiedWorld)) \<and>
   inflight (step (SubmitVote ''B'' ''u2'' ''2024-12-08T09:00:01.000Z'')
       (step (OtherClient otherTab) verifiedWorld)) =
     inflight (step (OtherClient otherTab) verifiedWorld) @ [AddDoc ballot] \<and>
   votes (run [OtherClient otherTab, SubmitVote ''B'' ''u2'' ''2024-12-08T09:00:01.000Z'',
               Settle 2 (Fulfilled [])] verifiedWorld) = [otherTab, ballot]"
  by code_simp

text \<open>
  Claim C4, as the code has it. A rejected append changes no state cell: the
  recorded-vote flag, the verification flag, the challenge dialog, the ledger and the
  stored token are as they are when the append fails, and an error toast is shown.
  When the recorded-vote flag is unset then (and verification granted), the gate is
  back in the Verified state: a retry issues the append again without opening the
  challenge or asking for verification, and when that append is fulfilled the vote is
  in the ledger and the recorded-vote flag is set. When the flag has been set while
  the append was outstanding, it stays set and a retry only shows the "already voted"
  toast.
\<close>

theorem failed_append_changes_no_cell:
  fixes w :: world and i :: nat and opt uuid now x :: string
  defines "w1 \<equiv> step (Settle i Rejected) w"
  defines "w2 \<equiv> step (SubmitVote opt uuid now) w1"
  defines "w3 \<equiv> step (Settle (length (inflight w1)) (Fulfilled x)) w2"
  assumes "i < length (inflight w)" and "inflight w ! i = AddDoc d"
  shows "hasVoted w1 = hasVoted w \<and> captchaVerified w1 = captchaVerified w \<and>
         showCaptcha w1 = showCaptcha w \<and> votes w1 = votes w \<and>
         localStorage w1 = localStorage w \<and> toasts w1 = toasts w @ [SubmissionError] \<and>
         (hasVoted w \<longrightarrow> w2 = toast AlreadyVoted w1) \<and>
         (\<not> hasVoted w \<and> captchaVerified w \<longrightarrow>
            inflight w2 = inflight w1 @
              [AddDoc \<lparr>option = Str opt, IP = userIP w, voteID = fst (generateVoteId uuid w),
                       timestamp = now\<rparr>] \<and>
            showCaptcha w2 = showCaptcha w \<and> toasts w2 = toasts w1 \<and>
            hasVoted w3 \<and> captchaVerified w3 \<and> showCaptcha w3 = showCaptcha w \<and>
            votes w3 = votes w @
              [\<lparr>option = Str opt, IP = userIP w, voteID = fst (generateVoteId uuid w),
                timestamp = now\<rparr>])"
proof -
  let ?rest = "take i (inflight w) @ drop (Suc i) (inflight w)"
  have w1: "w1 = toast SubmissionError (w\<lparr>inflight := ?rest\<rparr>)"
    using assms by (simp add: submitVote_settled_def)
  have cells: "hasVoted w1 = hasVoted w" "captchaVerified w1 = captchaVerified w"
    "showCaptcha w1 = showCaptcha w" "votes w1 = votes w" "localStorage w1 = localStorage w"
    "toasts w1 = toasts w @ [SubmissionError]" "userIP w1 = userIP w"
    "inflight w1 = ?rest"
    by (simp_all add: w1 toast_def)
  have token: "fst (generateVoteId uuid w1) = fst (generateVoteId uuid w)"
    by (simp add: generateVoteId_def cells split: option.splits)
  have refused: "w2 = toast AlreadyVoted w1" if "hasVoted w"
    using that by (simp add: w2_def submitVote_def cells)
  show ?thesis
  proof (cases "\<not> hasVoted w \<and> captchaVerified w")
    case False
    with cells refused show ?thesis by auto
  next
    case True
    let ?d = "\<lparr>option = Str opt, IP = userIP w, voteID = fst (generateVoteId uuid w),
                timestamp = now\<rparr>"
    have gen: "snd (generateVoteId uuid w1) = w1\<lparr>localStorage := Some (fst (generateVoteId uuid w))\<rparr>"
      using generateVoteId_writes_token_only [of uuid w1] by (simp add: token)
    have w2: "w2 = await (AddDoc ?d) (w1\<lparr>localStorage := Some (fst (generateVoteId uuid w))\<rparr>)"
      using True by (simp add: w2_def submitVote_def cells case_prod_beta token gen)
    have two: "inflight w2 = inflight w1 @ [AddDoc ?d]" "showCaptcha w2 = showCaptcha w"
      "toasts w2 = toasts w1" "captchaVerified w2" "votes w2 = votes w"
      using True by (simp_all add: w2 await_def cells)
    have three: "hasVoted w3" "captchaVerified w3" "showCaptcha w3 = showCaptcha w"
      "votes w3 = votes w @ [?d]"
      by (simp_all add: w3_def two submitVote_settled_def fetchVoteStats_def await_def)
    from True cells two three show ?thesis by simp
  qed
qed

text \<open>
  The theorem at \<open>submittingWorld\<close>, whose append is the third outstanding call
  and fails in the Verified state, and at \<open>overtakenWorld\<close>, whose append fails
  after the recorded-vote flag has been set.
\<close>

theorem failed_append_changes_no_cell_witness:
  "2 < length (inflight submittingWorld) \<and> inflight submittingWorld ! 2 = AddDoc ballot \<and>
   \<not> hasVoted submittingWorld \<and> captchaVerified submittingWorld \<and>
   \<not> hasVoted (step (Settle 2 Rejected) submittingWorld) \<and>
   captchaVerified (step (Settle 2 Rejected) submittingWorld) \<and>
   \<not> showCaptcha (step (Settle 2 Rejected) submittingWorld) \<and>
   votes (step (Settle 2 Rejected) submittingWorld) = [] \<and>
   \<not> showCaptcha (step (SubmitVote ''B'' ''u3'' ''2024-12-08T09:00:01.000Z'')
       (step (Settle 2 Rejected) submittingWorld)) \<and>
   hasVoted (step (Settle (length (inflight (step (Settle 2 Rejected) submittingWorld))) (Fulfilled []))
       (step (SubmitVote ''B'' ''u3'' ''2024-12-08T09:00:01.000Z'')
         (step (Settle 2 Rejected) submittingWorld))) \<and>
   votes (step (Settle (length (inflight (step (Settle 2 Rejected) submittingWorld))) (Fulfilled []))
       (step (SubmitVote ''B'' ''u3'' ''2024-12-08T09:00:01.000Z'')
         (step (Settle 2 Rejected) submittingWorld))) = [ballot] \<and>
   1 < length (inflight overtakenWorld) \<and> inflight overtakenWorld ! 1 = AddDoc ballot \<and>
   hasVoted overtakenWorld \<and> hasVoted (step (Settle 1 Rejected) overtakenWorld) \<and>
   step (SubmitVote ''B'' ''u3'' ''2024-12-08T09:00:02.000Z'')
       (step (Settle 1 Rejected) overtakenWorld) =
     toast AlreadyVoted (step (Settle 1 Rejected) overtakenWorld)"
proof -
  have call: "2 < length (inflight submittingWorld)" "inflight submittingWorld ! 2 = AddDoc ballot"
    using submittingWorld_call by simp_all
  have cells: "\<not> hasVoted submittingWorld" "captchaVerified submittingWorld"
    "votes submittingWorld = []" "userIP submittingWorld = []" "\<not> showCaptcha submittingWorld"
    "localStorage submittingWorld = Some ''mine''"
    using submittingWorld_cells by simp_all
  have token: "fst (generateVoteId ''u3'' submittingWorld) = ''mine''"
    by (simp add: generateVoteId_def cells)
  have overtaken: "1 < length (inflight overtakenWorld)"
    "inflight overtakenWorld ! 1 = AddDoc ballot" "hasVoted overtakenWorld"
    using overtakenWorld_call by simp_all
  from failed_append_changes_no_cell [OF call, of "''B''" "''u3''"
      "''2024-12-08T09:00:01.000Z''" "[]"] call cells
  have verified: "\<not> hasVoted (step (Settle 2 Rejected) submittingWorld) \<and>
   captchaVerified (step (Settle 2 Rejected) submittingWorld) \<and>
   \<not> showCaptcha (step (Settle 2 Rejected) submittingWorld) \<and>
   votes (step (Settle 2 Rejected) submittingWorld) = [] \<and>
   \<not> showCaptcha (step (SubmitVote ''B'' ''u3'' ''2024-12-08T09:00:01.000Z'')
       (step (Settle 2 Rejected) submittingWorld)) \<and>
   hasVoted (step (Settle (length (inflight (step (Settle 2 Rejected) submittingWorld))) (Fulfilled []))
       (step (SubmitVote ''B'' ''u3'' ''2024-12-08T09:00:01.000Z'')
         (step (Settle 2 Rejected) submittingWorld))) \<and>
   votes (step (Settle (length (inflight (step (Settle 2 Rejected) submittingWorld))) (Fulfilled []))
       (step (SubmitVote ''B'' ''u3'' ''2024-12-08T09:00:01.000Z'')
         (step (Settle 2 Rejected) submittingWorld))) = [ballot]"
    by (simp add: token ballot_def del: step.simps)
  from failed_append_changes_no_cell [OF overtaken(1,2), of "''B''" "''u3''"
      "''2024-12-08T09:00:02.000Z''" "[]"] overtaken(3)
  have blocked: "hasVoted (step (Settle 1 Rejected) overtakenWorld) \<and>
   step (SubmitVote ''B'' ''u3'' ''2024-12-08T09:00:02.000Z'')
       (step (Settle 1 Rejected) overtakenWorld) =
     toast AlreadyVoted (step (Settle 1 Rejected) overtakenWorld)"
    by (simp del: step.simps)
  from call cells(1,2) verified overtaken blocked show ?thesis
    by (simp del: step.simps)
qed

text \<open>
  Claim C4 as the specification states it fails at \<open>overtakenWorld\<close>. The append
  was issued in the Verified state and is still outstanding, and meanwhile
  \<open>checkVoteByIP\<close> has found the vote cast from the visitor's address. When the
  append is rejected, the recorded-vote flag is set, not unset: the gate is Blocked,
  and a retry issues no append.
\<close>

theorem failed_append_leaves_gate_blocked:
  "\<not> hasVoted (run [Settle 0 (Fulfilled []), OnCaptchaChange (Str ''token'')] returningWorld) \<and>
   captchaVerified (run [Settle 0 (Fulfilled []), OnCaptchaChange (Str ''token'')] returningWorld) \<and>
   inflight overtakenWorld = [StatsQuery False, AddDoc ballot] \<and>
   hasVoted (step (Settle 1 Rejected) overtakenWorld) \<and>
   inflight (step (SubmitVote ''B'' ''u3'' ''2024-12-08T09:00:02.000Z'')
       (step (Settle 1 Rejected) overtakenWorld)) = [StatsQuery False] \<and>
   toasts (step (SubmitVote ''B'' ''u3'' ''2024-12-08T09:00:02.000Z'')
       (step (Settle 1 Rejected) overtakenWorld)) = [SubmissionError, AlreadyVoted]"
  by code_simp

text \<open>
  Claim C6, as the code has it. \<open>submitVote\<close> ignores a vote intent once the
  recorded-vote flag is set, that is once an append has been fulfilled. It keeps no
  record of an append in flight: in the Verified state a call issues one more append,
  however many are outstanding.
\<close>

theorem submitVote_has_no_inflight_guard:
  "(hasVoted w \<longrightarrow> inflight (submitVote opt uuid now w) = inflight w) \<and>
   (\<not> hasVoted w \<and> captchaVerified w \<longrightarrow>
      length (filter isAddDoc (inflight (submitVote opt uuid now w))) =
        Suc (length (filter isAddDoc (inflight w))))"
  by (simp add: submitVote_def generateVoteId_def await_def toast_def split: option.splits)

text \<open>
  The theorem at \<open>submittingWorld\<close>: a second call makes two outstanding appends;
  after the first append is fulfilled a call issues nothing.
\<close>

theorem submitVote_has_no_inflight_guard_witness:
  "\<not> hasVoted submittingWorld \<and> captchaVerified submittingWorld \<and>
   length (filter isAddDoc (inflight submittingWorld)) = 1 \<and>
   length (filter isAddDoc
     (inflight (submitVote ''B'' ''u3'' ''2024-12-08T09:00:01.000Z'' submittingWorld))) = 2 \<and>
   hasVoted (step (Settle 2 (Fulfilled [])) submittingWorld) \<and>
   inflight (submitVote ''B'' ''u3'' ''2024-12-08T09:00:01.000Z''
       (step (Settle 2 (Fulfilled [])) submittingWorld)) =
     inflight (step (Settle 2 (Fulfilled [])) submittingWorld)"
proof -
  have cells: "\<not> hasVoted submittingWorld" "captchaVerified submittingWorld"
    using submittingWorld_cells by simp_all
  have one: "length (filter isAddDoc (inflight submittingWorld)) = 1"
    by code_simp
  have recorded: "hasVoted (step (Settle 2 (Fulfilled [])) submittingWorld)"
    by code_simp
  from submitVote_has_no_inflight_guard [of submittingWorld "''B''" "''u3''"
      "''2024-12-08T09:00:01.000Z''"] cells one
  have "length (filter isAddDoc
     (inflight (submitVote ''B'' ''u3'' ''2024-12-08T09:00:01.000Z'' submittingWorld))) = 2"
    by simp
  moreover from recorded
    submitVote_has_no_inflight_guard [of "step (Settle 2 (Fulfilled [])) submittingWorld"
      "''B''" "''u3''" "''2024-12-08T09:00:01.000Z''"]
  have "inflight (submitVote ''B'' ''u3'' ''2024-12-08T09:00:01.000Z''
       (step (Settle 2 (Fulfilled [])) submittingWorld)) =
     inflight (step (Settle 2 (Fulfilled [])) submittingWorld)"
    by simp
  ultimately show ?thesis
    using cells one recorded by simp
qed

text \<open>
  Claim C6 as the specification states it fails at \<open>verifiedWorld\<close>: two calls of
  \<open>submitVote\<close> in a row leave two appends for the token \<open>mine\<close> outstanding, and
  when both are fulfilled the ledger holds the vote twice.
\<close>

theorem second_append_while_first_in_flight:
  "inflight (run [SubmitVote ''B'' ''u2'' ''2024-12-08T09:00:01.000Z'',
                  SubmitVote ''B'' ''u3'' ''2024-12-08T09:00:01.000Z''] verifiedWorld) =
     [StatsQuery False, IPLookup, AddDoc ballot, AddDoc ballot] \<and>
   votes (run [SubmitVote ''B'' ''u2'' ''2024-12-08T09:00:01.000Z'',
               SubmitVote ''B'' ''u3'' ''2024-12-08T09:00:01.000Z'',
               Settle 2 (Fulfilled []), Settle 2 (Fulfilled [])] verifiedWorld) =
     [ballot, ballot]"
  by code_simp

text \<open>
  Claim C7. Once an append of a document \<open>d\<close> is fulfilled, then after any further
  events the ledger has a vote for the token of \<open>d\<close>, whatever the address; the
  recorded-vote flag is set; and \<open>handleVoteClick\<close> and \<open>submitVote\<close> do nothing
  but show the "already voted" toast: no state cell changes and the challenge is not
  opened.
\<close>

theorem vote_is_recorded_for_good:
  assumes "i < length (inflight w)" and "inflight w ! i = AddDoc d"
  shows "hasVoteFor (votes (run es (step (Settle i (Fulfilled x)) w))) (voteID d) a \<and>
         hasVoted (run es (step (Settle i (Fulfilled x)) w)) \<and>
         handleVoteClick (run es (step (Settle i (Fulfilled x)) w)) =
           toast AlreadyVoted (run es (step (Settle i (Fulfilled x)) w)) \<and>
         submitVote opt uuid now (run es (step (Settle i (Fulfilled x)) w)) =
           toast AlreadyVoted (run es (step (Settle i (Fulfilled x)) w))"
proof -
  let ?w1 = "step (Settle i (Fulfilled x)) w"
  have w1: "votes ?w1 = votes w @ [d]" "hasVoted ?w1"
    using assms by (simp_all add: submitVote_settled_def fetchVoteStats_def await_def)
  obtain ds where "votes (run es ?w1) = votes ?w1 @ ds"
    using votes_run by blast
  with w1(1) have "hasVoteFor (votes (run es ?w1)) (voteID d) a"
    by (simp add: hasVoteFor_own hasVoteFor_append del: append_assoc)
  moreover have "hasVoted (run es ?w1)"
    using w1(2) by (rule hasVoted_run)
  ultimately show ?thesis
    by (simp add: handleVoteClick_def submitVote_def)
qed

text \<open>
  The theorem at \<open>submittingWorld\<close>, for an execution with a further click and a
  failed query.
\<close>

theorem vote_is_recorded_for_good_witness:
  "2 < length (inflight submittingWorld) \<and> inflight submittingWorld ! 2 = AddDoc ballot \<and>
   hasVoteFor
     (votes (run [HandleVoteClick, Settle 0 Rejected] (step (Settle 2 (Fulfilled [])) submittingWorld)))
     ''mine'' ''192.0.2.1'' \<and>
   hasVoted (run [HandleVoteClick, Settle 0 Rejected] (step (Settle 2 (Fulfilled [])) submittingWorld)) \<and>
   handleVoteClick
     (run [HandleVoteClick, Settle 0 Rejected] (step (Settle 2 (Fulfilled [])) submittingWorld)) =
   toast AlreadyVoted
     (run [HandleVoteClick, Settle 0 Rejected] (step (Settle 2 (Fulfilled [])) submittingWorld)) \<and>
   submitVote ''A'' ''u3'' ''2024-12-08T09:05:00.000Z''
     (run [HandleVoteClick, Settle 0 Rejected] (step (Settle 2 (Fulfilled [])) submittingWorld)) =
   toast AlreadyVoted
     (run [HandleVoteClick, Settle 0 Rejected] (step (Settle 2 (Fulfilled [])) submittingWorld))"
proof -
  have call: "2 < length (inflight submittingWorld)" "inflight submittingWorld ! 2 = AddDoc ballot"
    using submittingWorld_call by simp_all
  have id: "voteID ballot = ''mine''"
    by (simp add: ballot_def)
  from vote_is_recorded_for_good [OF call, of "[HandleVoteClick, Settle 0 Rejected]" "[]"
      "''192.0.2.1''" "''A''" "''u3''" "''2024-12-08T09:05:00.000Z''"] call
  show ?thesis
    by (simp add: id)
qed

section \<open>The initial duplicate check\<close>

text \<open>
  The effect of the first render builds the address query of \<open>checkVoteStatus\<close>
  from \<open>userIP\<close> before \<open>fetchIP\<close> is called: the query asks for the empty
  address, and the lookup is outstanding.
\<close>

lemma mount_queries_the_empty_address:
  "inflight (mount uuid (initial stored docs)) =
     [StatusQueries (fst (generateVoteId uuid (initial stored docs))) [], StatsQuery False,
      IPLookup]"
  by (simp add: mount_def checkVoteStatus_def fetchVoteStats_def fetchIP_def await_def
      generateVoteId_def initial_def split: option.splits)

text \<open>
  Claim C5 at \<open>returningWorld\<close>. The two queries of the initial check are
  outstanding together with the address lookup, and the address query asks for the
  empty address. When the queries settle, \<open>loading\<close> is cleared with the
  recorded-vote flag unset, while the lookup is still outstanding and although the
  ledger has a vote from the visitor's address; the flag is set only later, when the
  lookup and then the query of \<open>checkVoteByIP\<close> have settled. And a first-time
  visitor is blocked by the initial check when the ledger holds a vote that was cast
  with the empty address.
\<close>

theorem initial_check_decides_before_address_is_resolved:
  "inflight returningWorld = [StatusQueries ''mine'' [], StatsQuery False, IPLookup] \<and>
   inflight (step (Settle 0 (Fulfilled [])) returningWorld) = [StatsQuery False, IPLookup] \<and>
   loading (step (Settle 0 (Fulfilled [])) returningWorld) = False \<and>
   hasVoted (step (Settle 0 (Fulfilled [])) returningWorld) = False \<and>
   whereIP ''203.0.113.7'' (votes returningWorld) = [cast (Str ''A'')] \<and>
   hasVoted (run [Settle 0 (Fulfilled []), Settle 1 (Fulfilled ''203.0.113.7''),
                  Settle 1 (Fulfilled [])] returningWorld) \<and>
   IP ballot = [] \<and>
   hasVoted (run [Mount ''u1'', Settle 0 (Fulfilled [])] (initial None [ballot]))"
  by code_simp

end
